theory Spec2Isabelle
  imports Main
begin

section \<open>Values seen through reflection\<close>

text \<open>
  The resolver of \<^verbatim>\<open>config.go\<close> inspects its destination through Go's \<^verbatim>\<open>reflect\<close>
  package.  A reflected value is modelled by its kind together with its content.  The
  signed and unsigned integer kinds keep their declared width; every kind the resolver
  has no case for at all (floats, slices, maps, pointers, ...) is the opaque \<open>VOther\<close>.
  A leaf also keeps its type: the predeclared type of its kind, or a named type declared
  with that kind as its underlying type (\<^verbatim>\<open>type Mode string\<close>), given by the name of its
  package and its own name.
  A field carries what the walker reads from its descriptor: the name, the results of
  \<^verbatim>\<open>Tag.Get("env")\<close> and \<^verbatim>\<open>Tag.Get("def")\<close> (the empty string when the tag is absent),
  whether \<^verbatim>\<open>CanSet\<close> holds, and the current value.
\<close>

datatype intKind = KInt | KInt8 | KInt16 | KInt32 | KInt64

datatype uintKind = KUint | KUint8 | KUint16 | KUint32 | KUint64 | KUintptr

datatype tyid = SharedLeaf | SharedBeego | UserStruct string

datatype tyRef = Predeclared | Named string string

datatype gvalue =
    VString tyRef string
  | VInt tyRef intKind int
  | VUint tyRef uintKind nat
  | VBool tyRef bool
  | VStruct tyid "field list"
  | VOther
and field =
    Field (fname: string) (envTag: string) (defTag: string) (canSet: bool) (fval: gvalue)

text \<open>\<^verbatim>\<open>Type.Name()\<close> of a structure type.\<close>

fun tyName :: "tyid \<Rightarrow> string" where
  "tyName SharedLeaf = ''SharedLeaf''"
| "tyName SharedBeego = ''SharedBeego''"
| "tyName (UserStruct n) = n"

text \<open>Width in bits of the integer kinds, on a 64-bit platform.\<close>

fun intBits :: "intKind \<Rightarrow> nat" where
  "intBits KInt = 64"
| "intBits KInt8 = 8"
| "intBits KInt16 = 16"
| "intBits KInt32 = 32"
| "intBits KInt64 = 64"

fun uintBits :: "uintKind \<Rightarrow> nat" where
  "uintBits KUint = 64"
| "uintBits KUint8 = 8"
| "uintBits KUint16 = 16"
| "uintBits KUint32 = 32"
| "uintBits KUint64 = 64"
| "uintBits KUintptr = 64"

text \<open>The name of the predeclared type of each integer kind.\<close>

fun intTypeName :: "intKind \<Rightarrow> string" where
  "intTypeName KInt = ''int''"
| "intTypeName KInt8 = ''int8''"
| "intTypeName KInt16 = ''int16''"
| "intTypeName KInt32 = ''int32''"
| "intTypeName KInt64 = ''int64''"

fun uintTypeName :: "uintKind \<Rightarrow> string" where
  "uintTypeName KUint = ''uint''"
| "uintTypeName KUint8 = ''uint8''"
| "uintTypeName KUint16 = ''uint16''"
| "uintTypeName KUint32 = ''uint32''"
| "uintTypeName KUint64 = ''uint64''"
| "uintTypeName KUintptr = ''uintptr''"

text \<open>
  What \<^verbatim>\<open>Type.Name()\<close> returns and what the verb \<^verbatim>\<open>%T\<close> prints for a leaf type, given the
  name of the predeclared type of its kind: a named type prints as its bare name and as
  its name qualified by the package.
\<close>

fun typeName :: "string \<Rightarrow> tyRef \<Rightarrow> string" where
  "typeName base Predeclared = base"
| "typeName base (Named pkg n) = n"

fun typeString :: "string \<Rightarrow> tyRef \<Rightarrow> string" where
  "typeString base Predeclared = base"
| "typeString base (Named pkg n) = pkg @ ''.'' @ n"

text \<open>
  \<^verbatim>\<open>Value.SetInt\<close> and \<^verbatim>\<open>Value.SetUint\<close> store the 64-bit argument converted to the
  field's width; the conversion wraps (two's complement), it does not fail.
\<close>

definition wrapSigned :: "nat \<Rightarrow> int \<Rightarrow> int" where
  "wrapSigned w x = (x + 2 ^ (w - 1)) mod 2 ^ w - 2 ^ (w - 1)"

definition wrapUnsigned :: "nat \<Rightarrow> nat \<Rightarrow> nat" where
  "wrapUnsigned w x = x mod 2 ^ w"

definition SetInt :: "tyRef \<Rightarrow> intKind \<Rightarrow> int \<Rightarrow> gvalue" where
  "SetInt t k x = VInt t k (wrapSigned (intBits k) x)"

definition SetUint :: "tyRef \<Rightarrow> uintKind \<Rightarrow> nat \<Rightarrow> gvalue" where
  "SetUint t k x = VUint t k (wrapUnsigned (uintBits k) x)"

section \<open>The string parsers of strconv\<close>

text \<open>
  \<^verbatim>\<open>setValue\<close> calls \<^verbatim>\<open>strconv.ParseInt(s, 10, 64)\<close>, \<^verbatim>\<open>strconv.ParseUint(s, 10, 64)\<close>
  and \<^verbatim>\<open>strconv.ParseBool(s)\<close>.  They are modelled for exactly these arguments: base 10
  (no underscores, no prefix) and 64 bits.  Each returns a value and an optional error,
  as the Go functions do.
\<close>

datatype numError = ErrSyntax | ErrRange

definition maxUint64 :: nat where
  "maxUint64 = 18446744073709551615"

definition isDigit :: "char \<Rightarrow> bool" where
  "isDigit c = (48 \<le> (of_char c :: nat) \<and> (of_char c :: nat) \<le> 57)"

definition digitVal :: "char \<Rightarrow> nat" where
  "digitVal c = (of_char c :: nat) - 48"

text \<open>
  The digit loop of \<^verbatim>\<open>ParseUint\<close>: a byte that is not a decimal digit is a syntax error
  (a letter has digit value at least 10, which is not below the base); the cutoff
  \<open>maxUint64 div 10 + 1\<close> is the smallest number whose product with 10 exceeds
  \<open>maxUint64\<close>.
\<close>

fun parseUintLoop :: "string \<Rightarrow> nat \<Rightarrow> nat \<times> numError option" where
  "parseUintLoop [] n = (n, None)"
| "parseUintLoop (c # cs) n =
     (if \<not> isDigit c then (0, Some ErrSyntax)
      else if n \<ge> maxUint64 div 10 + 1 then (maxUint64, Some ErrRange)
      else let n1 = n * 10 + digitVal c
           in if n1 > maxUint64 then (maxUint64, Some ErrRange)
              else parseUintLoop cs n1)"

definition ParseUint :: "string \<Rightarrow> nat \<times> numError option" where
  "ParseUint s = (if s = [] then (0, Some ErrSyntax) else parseUintLoop s 0)"

definition ParseInt :: "string \<Rightarrow> int \<times> numError option" where
  "ParseInt s0 =
     (if s0 = [] then (0, Some ErrSyntax)
      else let neg = (hd s0 = CHR ''-'');
               s = (if hd s0 = CHR ''+'' \<or> hd s0 = CHR ''-'' then tl s0 else s0);
               (un, err) = ParseUint s;
               cutoff = (2::nat) ^ 63
           in if err = Some ErrSyntax then (0, err)
              else if \<not> neg \<and> un \<ge> cutoff then (int cutoff - 1, Some ErrRange)
              else if neg \<and> un > cutoff then (- int cutoff, Some ErrRange)
              else (if neg then - int un else int un, None))"

definition ParseBool :: "string \<Rightarrow> bool \<times> numError option" where
  "ParseBool str =
     (if str \<in> set [''1'', ''t'', ''T'', ''TRUE'', ''true'', ''True''] then (True, None)
      else if str \<in> set [''0'', ''f'', ''F'', ''FALSE'', ''false'', ''False''] then (False, None)
      else (False, Some ErrSyntax))"

section \<open>Diagnostics and panics\<close>

text \<open>
  Everything the code prints is a diagnostic appended to a log; a panic ends the call.
  \<open>InvalidValue a b s\<close> is the line
  \<^verbatim>\<open>[Config Error]Invalid value: a(b), got s\<close>, where \<open>a\<close> is \<^verbatim>\<open>field.Type().Name()\<close>
  and \<open>b\<close> is the \<^verbatim>\<open>%T\<close> rendering of the field's value.
  \<open>InterfaceConversion a b\<close> is the panic of a failed type assertion in \<^verbatim>\<open>isSet\<close>:
  the value has the dynamic type \<open>a\<close> and \<open>b\<close> was asserted.
\<close>

datatype diag =
    ReadError string
  | JsonError string
  | InvalidValue string string string

datatype panic =
    CannotSet string string
  | TypeAssertion string
  | InterfaceConversion string string
  | NotAStruct

section \<open>isSet and setValue\<close>

text \<open>
  \<^verbatim>\<open>isSet\<close> switches on the kind.  Its integer cases list \<^verbatim>\<open>Int, Int8, Int32, Int64\<close> and
  \<^verbatim>\<open>Uint, Uint8, Uint32, Uint64\<close>; every kind without a case reaches the final
  \<^verbatim>\<open>return true\<close>.  The string and the boolean case read the value by the type assertions
  \<^verbatim>\<open>field.Interface().(string)\<close> and \<^verbatim>\<open>field.Interface().(bool)\<close>, which panic when the
  field's type is a named type; the integer cases read it by \<^verbatim>\<open>field.Int()\<close> and
  \<^verbatim>\<open>field.Uint()\<close>, which do not.
\<close>

fun isSet :: "gvalue \<Rightarrow> panic + bool" where
  "isSet (VString t s) =
     (if t = Predeclared then Inr (length s > 0)
      else Inl (InterfaceConversion (typeString ''string'' t) ''string''))"
| "isSet (VInt t k n) = Inr (if k \<in> {KInt, KInt8, KInt32, KInt64} then n > 0 else True)"
| "isSet (VUint t k n) = Inr (if k \<in> {KUint, KUint8, KUint32, KUint64} then n > 0 else True)"
| "isSet (VBool t b) =
     (if t = Predeclared then Inr b
      else Inl (InterfaceConversion (typeString ''bool'' t) ''bool''))"
| "isSet _ = Inr True"

text \<open>
  \<^verbatim>\<open>setValue\<close> has the same case lists.  It returns the field's new value and what it
  printed; a kind without a case is left alone and nothing is printed.  The setters of
  reflection work on named types as on predeclared ones.
\<close>

fun setValue :: "gvalue \<Rightarrow> string \<Rightarrow> gvalue \<times> diag list" where
  "setValue (VString t s) strVal = (VString t strVal, [])"
| "setValue (VInt t k n) strVal =
     (if k \<in> {KInt, KInt8, KInt32, KInt64} then
        (case ParseInt strVal of
           (intVal, Some err) \<Rightarrow>
             (VInt t k n,
              [InvalidValue (typeName (intTypeName k) t) (typeString (intTypeName k) t) strVal])
         | (intVal, None) \<Rightarrow> (SetInt t k intVal, []))
      else (VInt t k n, []))"
| "setValue (VUint t k n) strVal =
     (if k \<in> {KUint, KUint8, KUint32, KUint64} then
        (case ParseUint strVal of
           (intVal, Some err) \<Rightarrow>
             (VUint t k n,
              [InvalidValue (typeName (uintTypeName k) t) (typeString (uintTypeName k) t) strVal])
         | (intVal, None) \<Rightarrow> (SetUint t k intVal, []))
      else (VUint t k n, []))"
| "setValue (VBool t b) strVal =
     (case ParseBool strVal of
        (boolVal, Some err) \<Rightarrow>
          (VBool t b, [InvalidValue (typeName ''bool'' t) (typeString ''bool'' t) strVal])
      | (boolVal, None) \<Rightarrow> (VBool t boolVal, []))"
| "setValue v strVal = (v, [])"

section \<open>The field walker\<close>

text \<open>
  The process environment is a finite table of variables; \<^verbatim>\<open>os.Getenv\<close> returns the
  empty string for a variable that is not there.
\<close>

type_synonym environ = "string \<Rightarrow> string option"

definition Getenv :: "environ \<Rightarrow> string \<Rightarrow> string" where
  "Getenv env key = (case env key of None \<Rightarrow> [] | Some v \<Rightarrow> v)"

text \<open>
  The body of the loop for a leaf, in the order of the source: the assignment from the
  environment, the \<^verbatim>\<open>isSet\<close> test on the value the field holds then, and the
  assignment of the default literal.  A panic of \<^verbatim>\<open>isSet\<close> ends the walk; what the
  environment assignment printed before stays printed.
\<close>

definition setFromEnv :: "environ \<Rightarrow> field \<Rightarrow> gvalue \<times> diag list" where
  "setFromEnv env f =
     (let envKey = envTag f
      in if envKey \<noteq> [] \<and> envKey \<noteq> ''-'' then
           (let envVal = Getenv env envKey
            in if envVal \<noteq> [] then setValue (fval f) envVal else (fval f, []))
         else (fval f, []))"

definition setAsDefault :: "field \<Rightarrow> gvalue \<Rightarrow> gvalue \<times> diag list" where
  "setAsDefault f v =
     (let def = defTag f
      in if def \<noteq> [] \<and> def \<noteq> ''-'' then setValue v def else (v, []))"

definition leafField :: "environ \<Rightarrow> field \<Rightarrow> diag list \<times> (panic + gvalue)" where
  "leafField env f =
     (case setFromEnv env f of
        (v1, l1) \<Rightarrow>
          (case isSet v1 of
             Inl p \<Rightarrow> (l1, Inl p)
           | Inr True \<Rightarrow> (l1, Inr v1)
           | Inr False \<Rightarrow> (case setAsDefault f v1 of (v2, l2) \<Rightarrow> (l1 @ l2, Inr v2))))"

text \<open>
  The two recursion branches of the source differ only in the name compared and the type
  asserted; \<open>embeddedType\<close> gives the type asserted for a field name, and \<open>hasType\<close> is
  the type assertion \<^verbatim>\<open>v.Interface().(T)\<close>.
\<close>

definition embeddedType :: "string \<Rightarrow> tyid option" where
  "embeddedType n =
     (if n = ''SharedLeaf'' then Some SharedLeaf
      else if n = ''SharedBeego'' then Some SharedBeego
      else None)"

fun hasType :: "tyid \<Rightarrow> gvalue \<Rightarrow> bool" where
  "hasType T (VStruct T' fs) = (T' = T)"
| "hasType T _ = False"

text \<open>
  \<^verbatim>\<open>setFromEnvOrDefault\<close> takes the structure its argument points to.  Reflection panics
  when that is not a structure.  The loop visits the fields in declaration order; a panic
  ends it, and the lines printed before the panic stay printed.
\<close>

fun setFromEnvOrDefault :: "environ \<Rightarrow> gvalue \<Rightarrow> diag list \<times> (panic + gvalue)"
and fieldLoop :: "environ \<Rightarrow> string \<Rightarrow> field list \<Rightarrow> diag list \<times> (panic + field list)"
where
  "setFromEnvOrDefault env (VStruct T fs) =
     (case fieldLoop env (tyName T) fs of
        (l, Inl p) \<Rightarrow> (l, Inl p)
      | (l, Inr fs') \<Rightarrow> (l, Inr (VStruct T fs')))"
| "setFromEnvOrDefault env (VString t s) = ([], Inl NotAStruct)"
| "setFromEnvOrDefault env (VInt t k n) = ([], Inl NotAStruct)"
| "setFromEnvOrDefault env (VUint t k n) = ([], Inl NotAStruct)"
| "setFromEnvOrDefault env (VBool t b) = ([], Inl NotAStruct)"
| "setFromEnvOrDefault env VOther = ([], Inl NotAStruct)"
| "fieldLoop env tn [] = ([], Inr [])"
| "fieldLoop env tn (Field n e d c v # fs) =
     (if \<not> c then ([], Inl (CannotSet tn n))
      else case embeddedType n of
        Some T \<Rightarrow>
          (if hasType T v then
             (case setFromEnvOrDefault env v of
                (l, Inl p) \<Rightarrow> (l, Inl p)
              | (l, Inr x) \<Rightarrow>
                  (case fieldLoop env tn fs of
                     (l', Inl p) \<Rightarrow> (l @ l', Inl p)
                   | (l', Inr fs') \<Rightarrow> (l @ l', Inr (Field n e d c x # fs'))))
           else ([], Inl (TypeAssertion n)))
      | None \<Rightarrow>
          (case leafField env (Field n e d c v) of
             (l, Inl p) \<Rightarrow> (l, Inl p)
           | (l, Inr v') \<Rightarrow>
               (case fieldLoop env tn fs of
                  (l', Inl p) \<Rightarrow> (l @ l', Inl p)
                | (l', Inr fs') \<Rightarrow> (l @ l', Inr (Field n e d c v' # fs')))))"

section \<open>Parse\<close>

text \<open>
  \<^verbatim>\<open>ioutil.ReadFile\<close> is a table from paths to contents (\<open>None\<close> when the read fails, and
  then the data is empty).  \<^verbatim>\<open>json.Unmarshal\<close> is outside the repository; what a document
  does to the destination is a parameter of the model.  A document is syntactically
  invalid (the destination is untouched), or the literal \<^verbatim>\<open>null\<close>, or it decodes: then it
  assigns values to some leaves, named by their path of field names, leaves every other
  field alone, and may still report an error for the values it skipped.  A value is only
  stored into a leaf of its own type.  The content of opaque fields is not modelled.
  Since \<^verbatim>\<open>Parse\<close> passes the address of its interface parameter, the literal \<^verbatim>\<open>null\<close>
  stores nil there, and a nil interface is an opaque value.  Empty data is never a valid
  document.
\<close>

type_synonym files = "string \<Rightarrow> string option"

type_synonym assignment = "string list \<Rightarrow> gvalue option"

datatype jsonDoc = JInvalid string | JNull | JDoc "string option" assignment

type_synonym decoder = "string \<Rightarrow> jsonDoc"

fun sameType :: "gvalue \<Rightarrow> gvalue \<Rightarrow> bool" where
  "sameType (VString t s) (VString t' s') = (t = t')"
| "sameType (VInt t k n) (VInt t' k' n') = (t = t' \<and> k = k')"
| "sameType (VUint t k n) (VUint t' k' n') = (t = t' \<and> k = k')"
| "sameType (VBool t b) (VBool t' b') = (t = t')"
| "sameType _ _ = False"

fun overlayValue :: "assignment \<Rightarrow> string list \<Rightarrow> gvalue \<Rightarrow> gvalue"
and overlayFields :: "assignment \<Rightarrow> string list \<Rightarrow> field list \<Rightarrow> field list"
where
  "overlayValue a p (VStruct T fs) = VStruct T (overlayFields a p fs)"
| "overlayValue a p VOther = VOther"
| "overlayValue a p v =
     (case a p of Some j \<Rightarrow> if sameType v j then j else v | None \<Rightarrow> v)"
| "overlayFields a p [] = []"
| "overlayFields a p (Field n e d c v # fs) =
     Field n e d c (overlayValue a (p @ [n]) v) # overlayFields a p fs"

definition Unmarshal :: "decoder \<Rightarrow> string \<Rightarrow> gvalue \<Rightarrow> string option \<times> gvalue" where
  "Unmarshal dec data st =
     (if data = [] then (Some ''unexpected end of JSON input'', st)
      else case dec data of
        JInvalid e \<Rightarrow> (Some e, st)
      | JNull \<Rightarrow> (None, VOther)
      | JDoc err a \<Rightarrow> (err, overlayValue a [] st))"

definition ReadFile :: "files \<Rightarrow> string \<Rightarrow> string \<times> diag list" where
  "ReadFile files filepath =
     (case files filepath of
        None \<Rightarrow> ([], [ReadError filepath])
      | Some d \<Rightarrow> (d, []))"

definition Parse ::
  "environ \<Rightarrow> files \<Rightarrow> decoder \<Rightarrow> string \<Rightarrow> gvalue \<Rightarrow> diag list \<times> (panic + gvalue)" where
  "Parse env files dec filepath st =
     (case ReadFile files filepath of
        (data, l1) \<Rightarrow>
          (case Unmarshal dec data st of
             (err, st1) \<Rightarrow>
               (case setFromEnvOrDefault env st1 of
                  (l3, r) \<Rightarrow>
                    (l1 @ (case err of None \<Rightarrow> [] | Some e \<Rightarrow> [JsonError e]) @ l3, r))))"

text \<open>The destination as JSON decoding leaves it, before the walker runs.\<close>

definition decoded :: "files \<Rightarrow> decoder \<Rightarrow> string \<Rightarrow> gvalue \<Rightarrow> gvalue" where
  "decoded files dec filepath st = snd (Unmarshal dec (fst (ReadFile files filepath)) st)"

section \<open>The schemas declared in the source\<close>

text \<open>The zero values of the two structures of \<^verbatim>\<open>config.go\<close>, with their tags.\<close>

definition SharedLeafZero :: gvalue where
  "SharedLeafZero = VStruct SharedLeaf
     [Field ''ListenIP'' ''LISTEN_IP'' ''0.0.0.0'' True (VString Predeclared []),
      Field ''ListenPort'' ''LISTEN_PORT'' ''0'' True (VInt Predeclared KInt 0),
      Field ''GoLen'' [] ''8000'' True (VInt Predeclared KInt 0),
      Field ''TimerDispatcherLen'' [] ''1000'' True (VInt Predeclared KInt 0),
      Field ''ChanRPCLen'' [] ''8000'' True (VInt Predeclared KInt 0),
      Field ''MaxConnNum'' [] ''5000'' True (VInt Predeclared KInt 0),
      Field ''PendingWriteNum'' [] ''1000'' True (VInt Predeclared KInt 0),
      Field ''LenMsgLen'' [] ''2'' True (VInt Predeclared KInt 0),
      Field ''MinMsgLen'' [] ''2'' True (VInt Predeclared KInt 0),
      Field ''MaxMsgLen'' [] ''65535'' True (VUint Predeclared KUint32 0),
      Field ''SlowOpThresholdMs'' [] ''20'' True (VInt Predeclared KInt64 0),
      Field ''SlowResponseMs'' [] ''2000'' True (VInt Predeclared KInt64 0)]"

definition SharedBeegoZero :: gvalue where
  "SharedBeegoZero = VStruct SharedBeego
     [Field ''HTTPPort'' ''HTTP_PORT'' ''8080'' True (VInt Predeclared KInt 0),
      Field ''AppName'' ''APP_NAME'' ''my_game'' True (VString Predeclared []),
      Field ''RunMode'' ''RUN_MODE'' ''dev'' True (VString Predeclared [])]"

section \<open>What a walk that does not panic computes\<close>

text \<open>
  Whether the walker panics depends on the shape of the structure only: every field it
  visits must be settable, a field it recurses into must hold a structure of the
  asserted type that can itself be walked, and a leaf must pass the type assertions of
  \<^verbatim>\<open>isSet\<close>: a string or boolean leaf must have the predeclared type.
\<close>

fun assertsOK :: "gvalue \<Rightarrow> bool" where
  "assertsOK (VString t s) = (t = Predeclared)"
| "assertsOK (VBool t b) = (t = Predeclared)"
| "assertsOK _ = True"

fun walkable :: "gvalue \<Rightarrow> bool"
and walkableFields :: "field list \<Rightarrow> bool"
where
  "walkable (VStruct T fs) = walkableFields fs"
| "walkable (VString t s) = False"
| "walkable (VInt t k n) = False"
| "walkable (VUint t k n) = False"
| "walkable (VBool t b) = False"
| "walkable VOther = False"
| "walkableFields [] = True"
| "walkableFields (Field n e d c v # fs) =
     (c \<and> (case embeddedType n of Some T \<Rightarrow> hasType T v \<and> walkable v | None \<Rightarrow> assertsOK v)
        \<and> walkableFields fs)"

text \<open>
  The value a leaf ends with when the leaf rule returns (the leaf is left as it is where
  the rule panics), and the structure a walk without panic leaves behind, as functions
  of the input.
\<close>

definition leafValue :: "environ \<Rightarrow> field \<Rightarrow> gvalue" where
  "leafValue env f = (case snd (leafField env f) of Inr v \<Rightarrow> v | Inl p \<Rightarrow> fval f)"

fun resolved :: "environ \<Rightarrow> gvalue \<Rightarrow> gvalue"
and resolvedFields :: "environ \<Rightarrow> field list \<Rightarrow> field list"
where
  "resolved env (VStruct T fs) = VStruct T (resolvedFields env fs)"
| "resolved env (VString t s) = VString t s"
| "resolved env (VInt t k n) = VInt t k n"
| "resolved env (VUint t k n) = VUint t k n"
| "resolved env (VBool t b) = VBool t b"
| "resolved env VOther = VOther"
| "resolvedFields env [] = []"
| "resolvedFields env (Field n e d c v # fs) =
     Field n e d c
       (case embeddedType n of
          Some T \<Rightarrow> resolved env v
        | None \<Rightarrow> leafValue env (Field n e d c v))
     # resolvedFields env fs"

text \<open>
  A field the walker visits, addressed by the positions to follow from the destination:
  the walker descends only through fields named after one of the two shared structures.
\<close>

fun visited :: "nat list \<Rightarrow> gvalue \<Rightarrow> field option" where
  "visited [] v = None"
| "visited (i # p) (VStruct T fs) =
     (if i < length fs then
        (if p = [] then Some (fs ! i)
         else if embeddedType (fname (fs ! i)) \<noteq> None then visited p (fval (fs ! i))
         else None)
      else None)"
| "visited (i # p) v = None"

text \<open>The zero value of a leaf's kind: the empty string, 0 or false.\<close>

fun zeroValue :: "gvalue \<Rightarrow> gvalue" where
  "zeroValue (VString t s) = VString t []"
| "zeroValue (VInt t k n) = VInt t k 0"
| "zeroValue (VUint t k n) = VUint t k 0"
| "zeroValue (VBool t b) = VBool t False"
| "zeroValue v = v"

text \<open>
  The Meaningfulness Test as the specification words it (section 4.2), for comparison
  with \<^verbatim>\<open>isSet\<close>: a string is meaningful iff it is not empty, a signed or unsigned integer
  of any width iff it is greater than zero, a boolean iff it is true, and any other kind
  always.
\<close>

fun specMeaningful :: "gvalue \<Rightarrow> bool" where
  "specMeaningful (VString t s) = (s \<noteq> [])"
| "specMeaningful (VInt t k n) = (n > 0)"
| "specMeaningful (VUint t k n) = (n > 0)"
| "specMeaningful (VBool t b) = b"
| "specMeaningful v = True"

section \<open>The leaf rule returns or panics by the type of the leaf\<close>

lemma assertsOK_setValue: "assertsOK (fst (setValue v s)) = assertsOK v"
  by (cases v) (auto simp: SetInt_def SetUint_def split: prod.splits option.splits)

lemma isSet_returns: "assertsOK v \<Longrightarrow> \<exists>b. isSet v = Inr b"
  by (cases v) auto

lemma isSet_panics: "\<not> assertsOK v \<Longrightarrow> \<exists>p. isSet v = Inl p"
  by (cases v) auto

lemma assertsOK_setFromEnv: "assertsOK (fst (setFromEnv env f)) = assertsOK (fval f)"
  by (simp add: setFromEnv_def Let_def assertsOK_setValue)

lemma leafField_panics:
  assumes "\<not> assertsOK (fval f)"
  shows "\<exists>l p. leafField env f = (l, Inl p)"
proof -
  obtain v1 l1 where s: "setFromEnv env f = (v1, l1)" by (cases "setFromEnv env f")
  with assms have "\<not> assertsOK v1" using assertsOK_setFromEnv [of env f] by simp
  then obtain p where "isSet v1 = Inl p" using isSet_panics by blast
  with s show ?thesis by (simp add: leafField_def)
qed

lemma leafField_returns:
  assumes "assertsOK (fval f)"
  shows "\<exists>l. leafField env f = (l, Inr (leafValue env f))"
proof -
  obtain v1 l1 where s: "setFromEnv env f = (v1, l1)" by (cases "setFromEnv env f")
  with assms have "assertsOK v1" using assertsOK_setFromEnv [of env f] by simp
  then obtain b where "isSet v1 = Inr b" using isSet_returns by blast
  with s show ?thesis
    by (cases b) (auto simp: leafField_def leafValue_def split: prod.splits)
qed

lemma leafValue_panics: "\<not> assertsOK (fval f) \<Longrightarrow> leafValue env f = fval f"
  using leafField_panics [of f env] by (auto simp: leafValue_def)

lemma leafValue_returns:
  assumes "assertsOK (fval f)"
  shows "leafValue env f =
     (let v1 = (if envTag f \<noteq> [] \<and> envTag f \<noteq> ''-'' \<and> Getenv env (envTag f) \<noteq> []
                then fst (setValue (fval f) (Getenv env (envTag f))) else fval f)
      in if isSet v1 = Inr True then v1
         else if defTag f \<noteq> [] \<and> defTag f \<noteq> ''-'' then fst (setValue v1 (defTag f)) else v1)"
proof -
  obtain v1 l1 where s: "setFromEnv env f = (v1, l1)" by (cases "setFromEnv env f")
  with assms have "assertsOK v1" using assertsOK_setFromEnv [of env f] by simp
  then obtain b where b: "isSet v1 = Inr b" using isSet_returns by blast
  have v1: "v1 = (if envTag f \<noteq> [] \<and> envTag f \<noteq> ''-'' \<and> Getenv env (envTag f) \<noteq> []
                then fst (setValue (fval f) (Getenv env (envTag f))) else fval f)"
    using s by (auto simp: setFromEnv_def Let_def split: if_splits)
  show ?thesis
    using s b unfolding v1 [symmetric] Let_def
    by (cases b) (auto simp: leafField_def leafValue_def setAsDefault_def Let_def split: prod.splits)
qed

section \<open>The walker panics exactly on the structures that cannot be walked\<close>

lemma walk_ok:
  "walkable v \<Longrightarrow> \<exists>l. setFromEnvOrDefault env v = (l, Inr (resolved env v))"
  "walkableFields fs \<Longrightarrow> \<exists>l. fieldLoop env tn fs = (l, Inr (resolvedFields env fs))"
proof (induct v and fs arbitrary: and tn rule: walkable_walkableFields.induct)
  case (1 T fs)
  then obtain l where "fieldLoop env (tyName T) fs = (l, Inr (resolvedFields env fs))"
    by fastforce
  then show ?case by simp
next
  case (8 n e d c v fs)
  from 8 obtain l where l: "fieldLoop env tn fs = (l, Inr (resolvedFields env fs))"
    by fastforce
  show ?case
  proof (cases "embeddedType n")
    case None
    with 8 have "assertsOK (fval (Field n e d c v))" by simp
    then obtain l' where "leafField env (Field n e d c v) = (l', Inr (leafValue env (Field n e d c v)))"
      using leafField_returns by blast
    with 8 l None show ?thesis by simp
  next
    case (Some T)
    with 8 obtain l' where "setFromEnvOrDefault env v = (l', Inr (resolved env v))"
      by fastforce
    with 8 l Some show ?thesis by simp
  qed
qed simp_all

lemma walk_panics:
  "\<not> walkable v \<Longrightarrow> \<exists>l p. setFromEnvOrDefault env v = (l, Inl p)"
  "\<not> walkableFields fs \<Longrightarrow> \<exists>l p. fieldLoop env tn fs = (l, Inl p)"
proof (induct v and fs arbitrary: and tn rule: walkable_walkableFields.induct)
  case (1 T fs)
  then obtain l p where "fieldLoop env (tyName T) fs = (l, Inl p)"
    by fastforce
  then show ?case by simp
next
  case (8 n e d c v fs)
  show ?case
  proof (cases "walkableFields fs")
    case False
    with 8 obtain l p where l: "fieldLoop env tn fs = (l, Inl p)"
      by fastforce
    then show ?thesis
      by (cases "embeddedType n") (auto split: prod.splits sum.splits)
  next
    case True
    show ?thesis
    proof (cases "embeddedType n")
      case None
      show ?thesis
      proof (cases c)
        case False
        then show ?thesis by simp
      next
        case c: True
        with 8 True None have "\<not> assertsOK (fval (Field n e d c v))" by simp
        then obtain l p where "leafField env (Field n e d c v) = (l, Inl p)"
          using leafField_panics by blast
        with None c show ?thesis by simp
      qed
    next
      case (Some T)
      show ?thesis
      proof (cases "c \<and> hasType T v")
        case False
        with Some show ?thesis by auto
      next
        case ht: True
        with 8 True Some have "\<not> walkable v" by simp
        with 8 Some ht obtain l p where "setFromEnvOrDefault env v = (l, Inl p)"
          by fastforce
        with Some ht show ?thesis by simp
      qed
    qed
  qed
qed simp_all

section \<open>Resolving a leaf twice\<close>

lemma sameType_setValue:
  "sameType (fst (setValue v s)) j = sameType v j"
  by (cases v; cases j) (auto simp: SetInt_def SetUint_def split: prod.splits option.splits)

lemma sameType_refl: "sameType v j \<Longrightarrow> sameType v v \<and> sameType j j \<and> sameType j v"
  by (cases v; cases j) simp_all

lemma assertsOK_sameType: "sameType v j \<Longrightarrow> assertsOK j = assertsOK v"
  by (cases v; cases j) simp_all

lemma setValue_not_scalar:
  "\<not> sameType v v \<Longrightarrow> setValue v s = (v, []) \<and> isSet v = Inr True \<and> assertsOK v"
  by (cases v) simp_all

lemma setValue_const_or_id:
  "(\<forall>w. sameType w v \<longrightarrow> fst (setValue w s) = w) \<or>
   (\<exists>X. \<forall>w. sameType w v \<longrightarrow> fst (setValue w s) = X)"
proof (cases v)
  case (VString t x)
  have "\<forall>w. sameType w v \<longrightarrow> fst (setValue w s) = VString t s"
  proof (intro allI impI)
    fix w assume "sameType w v"
    with VString show "fst (setValue w s) = VString t s" by (cases w) simp_all
  qed
  then show ?thesis by blast
next
  case (VInt t k n)
  show ?thesis
  proof (cases "k \<in> {KInt, KInt8, KInt32, KInt64} \<and> snd (ParseInt s) = None")
    case True
    have "\<forall>w. sameType w v \<longrightarrow> fst (setValue w s) = SetInt t k (fst (ParseInt s))"
    proof (intro allI impI)
      fix w assume "sameType w v"
      with VInt True show "fst (setValue w s) = SetInt t k (fst (ParseInt s))"
        by (cases w) (auto split: prod.splits option.splits)
    qed
    then show ?thesis by blast
  next
    case False
    have "\<forall>w. sameType w v \<longrightarrow> fst (setValue w s) = w"
    proof (intro allI impI)
      fix w assume "sameType w v"
      with VInt False show "fst (setValue w s) = w"
        by (cases w) (auto split: prod.splits option.splits)
    qed
    then show ?thesis by blast
  qed
next
  case (VUint t k n)
  show ?thesis
  proof (cases "k \<in> {KUint, KUint8, KUint32, KUint64} \<and> snd (ParseUint s) = None")
    case True
    have "\<forall>w. sameType w v \<longrightarrow> fst (setValue w s) = SetUint t k (fst (ParseUint s))"
    proof (intro allI impI)
      fix w assume "sameType w v"
      with VUint True show "fst (setValue w s) = SetUint t k (fst (ParseUint s))"
        by (cases w) (auto split: prod.splits option.splits)
    qed
    then show ?thesis by blast
  next
    case False
    have "\<forall>w. sameType w v \<longrightarrow> fst (setValue w s) = w"
    proof (intro allI impI)
      fix w assume "sameType w v"
      with VUint False show "fst (setValue w s) = w"
        by (cases w) (auto split: prod.splits option.splits)
    qed
    then show ?thesis by blast
  qed
next
  case (VBool t b)
  show ?thesis
  proof (cases "snd (ParseBool s) = None")
    case True
    have "\<forall>w. sameType w v \<longrightarrow> fst (setValue w s) = VBool t (fst (ParseBool s))"
    proof (intro allI impI)
      fix w assume "sameType w v"
      with VBool True show "fst (setValue w s) = VBool t (fst (ParseBool s))"
        by (cases w) (auto split: prod.splits option.splits)
    qed
    then show ?thesis by blast
  next
    case False
    have "\<forall>w. sameType w v \<longrightarrow> fst (setValue w s) = w"
    proof (intro allI impI)
      fix w assume "sameType w v"
      with VBool False show "fst (setValue w s) = w"
        by (cases w) (auto split: prod.splits option.splits)
    qed
    then show ?thesis by blast
  qed
next
  case (VStruct T fs)
  then show ?thesis by simp
next
  case VOther
  then show ?thesis by simp
qed

lemma leafValue_not_scalar:
  "\<not> sameType v v \<Longrightarrow> leafValue env (Field n e d c v) = v"
  using setValue_not_scalar [of v]
  by (simp add: leafValue_returns Let_def)

lemma sameType_leafValue:
  "sameType (leafValue env (Field n e d c v)) j = sameType v j"
proof (cases "assertsOK v")
  case True
  then show ?thesis by (simp add: leafValue_returns Let_def sameType_setValue)
next
  case False
  then show ?thesis by (simp add: leafValue_panics)
qed

lemma assertsOK_leafValue:
  "assertsOK (leafValue env (Field n e d c v)) = assertsOK v"
proof (cases "assertsOK v")
  case True
  then show ?thesis by (simp add: leafValue_returns Let_def assertsOK_setValue)
next
  case False
  then show ?thesis by (simp add: leafValue_panics)
qed

lemma leafValue_idem:
  "leafValue env (Field n e d c (leafValue env (Field n e d c v))) =
   leafValue env (Field n e d c v)"
proof (cases "sameType v v \<and> assertsOK v")
  case False
  then show ?thesis
    by (auto simp: leafValue_not_scalar leafValue_panics)
next
  case True
  define E where "E w = (if e \<noteq> [] \<and> e \<noteq> ''-'' \<and> Getenv env e \<noteq> []
                then fst (setValue w (Getenv env e)) else w)" for w
  define D where "D w = (if d \<noteq> [] \<and> d \<noteq> ''-'' then fst (setValue w d) else w)" for w
  define R where "R w = (if isSet (E w) = Inr True then E w else D (E w))" for w
  have R: "assertsOK w \<Longrightarrow> leafValue env (Field n e d c w) = R w" for w
    by (simp add: leafValue_returns Let_def R_def E_def D_def)
  have Ety: "sameType (E w) j = sameType w j" for w j
    by (simp add: E_def sameType_setValue)
  have Dty: "sameType (D w) j = sameType w j" for w j
    by (simp add: D_def sameType_setValue)
  have Rty: "sameType (R w) j = sameType w j" for w j
    by (simp add: R_def Ety Dty)
  have Ecases: "(\<forall>w. sameType w v \<longrightarrow> E w = w) \<or> (\<exists>X. \<forall>w. sameType w v \<longrightarrow> E w = X)"
    using setValue_const_or_id [of v "Getenv env e"] by (auto simp: E_def)
  have Dcases: "(\<forall>w. sameType w v \<longrightarrow> D w = w) \<or> (\<exists>X. \<forall>w. sameType w v \<longrightarrow> D w = X)"
    using setValue_const_or_id [of v d] by (auto simp: D_def)
  have Rv: "sameType (R v) v" using True by (simp add: Rty)
  have Rok: "assertsOK (R v)" using Rv True assertsOK_sameType by blast
  have "R (R v) = R v"
  proof -
    from Ecases show ?thesis
    proof
      assume "\<exists>X. \<forall>w. sameType w v \<longrightarrow> E w = X"
      then obtain X where X: "\<forall>w. sameType w v \<longrightarrow> E w = X" by blast
      then have "\<forall>w. sameType w v \<longrightarrow> R w = (if isSet X = Inr True then X else D X)"
        by (simp add: R_def)
      with Rv True show ?thesis by simp
    next
      assume Eid: "\<forall>w. sameType w v \<longrightarrow> E w = w"
      with True Rv have e1: "E v = v" and e2: "E (R v) = R v" by auto
      show ?thesis
      proof (cases "isSet v = Inr True")
        case True
        with e1 show ?thesis by (simp add: R_def)
      next
        case False
        with e1 have rv: "R v = D v" by (simp add: R_def)
        from Dcases show ?thesis
        proof
          assume "\<forall>w. sameType w v \<longrightarrow> D w = w"
          with True have "D v = v" by auto
          with rv e1 False show ?thesis by (simp add: R_def)
        next
          assume "\<exists>Y. \<forall>w. sameType w v \<longrightarrow> D w = Y"
          then obtain Y where Y: "\<forall>w. sameType w v \<longrightarrow> D w = Y" by blast
          with True have dv: "D v = Y" by auto
          from Y Rv rv dv have "D Y = Y" by auto
          moreover from Eid Rv rv dv have "E Y = Y" by auto
          ultimately show ?thesis using rv dv by (simp add: R_def)
        qed
      qed
    qed
  qed
  with True Rok show ?thesis by (simp add: R)
qed

section \<open>Shape is preserved by decoding and by the walk\<close>

lemma Parse_snd:
  "snd (Parse env files dec filepath st) = snd (setFromEnvOrDefault env (decoded files dec filepath st))"
  by (simp add: Parse_def decoded_def split: prod.splits)

lemma hasType_resolved: "hasType T (resolved env v) = hasType T v"
  by (cases v) simp_all

lemma walkable_resolved:
  "walkable (resolved env v) = walkable v"
  "walkableFields (resolvedFields env fs) = walkableFields fs"
  by (induct v and fs rule: walkable_walkableFields.induct)
     (auto simp: hasType_resolved assertsOK_leafValue split: option.splits)

lemma sameType_not_struct: "sameType v j \<Longrightarrow> \<not> hasType T j \<and> \<not> walkable j"
  by (cases v; cases j) simp_all

lemma hasType_overlay: "hasType T (overlayValue a p v) = hasType T v"
  by (cases v) (auto dest: sameType_not_struct split: option.splits)

lemma assertsOK_overlay: "assertsOK (overlayValue a p v) = assertsOK v"
  by (cases v) (auto dest: assertsOK_sameType split: option.splits)

lemma walkable_overlay:
  "walkable (overlayValue a p v) = walkable v"
  "walkableFields (overlayFields a p fs) = walkableFields fs"
  by (induct a p v and a p fs rule: overlayValue_overlayFields.induct)
     (auto simp: hasType_overlay assertsOK_overlay dest: sameType_not_struct split: option.splits)

lemma walkable_decoded:
  "walkable (decoded files dec filepath st) \<Longrightarrow> walkable st"
  by (auto simp: decoded_def Unmarshal_def walkable_overlay split: if_splits jsonDoc.splits)

lemma resolvedFields_Cons:
  "resolvedFields env (f # fs) =
     Field (fname f) (envTag f) (defTag f) (canSet f)
       (case embeddedType (fname f) of
          Some T \<Rightarrow> resolved env (fval f)
        | None \<Rightarrow> leafValue env f)
     # resolvedFields env fs"
  by (cases f) (simp split: option.splits)

lemma length_resolvedFields: "length (resolvedFields env fs) = length fs"
  by (induct fs) (simp_all add: resolvedFields_Cons)

lemma nth_resolvedFields:
  "i < length fs \<Longrightarrow>
   resolvedFields env fs ! i =
     Field (fname (fs ! i)) (envTag (fs ! i)) (defTag (fs ! i)) (canSet (fs ! i))
       (case embeddedType (fname (fs ! i)) of
          Some T \<Rightarrow> resolved env (fval (fs ! i))
        | None \<Rightarrow> leafValue env (fs ! i))"
proof (induct fs arbitrary: i)
  case Nil
  then show ?case by simp
next
  case (Cons f fs)
  then show ?case by (cases i) (simp_all add: resolvedFields_Cons split: option.splits)
qed

lemma nth_walkableFields:
  "walkableFields fs \<Longrightarrow> i < length fs \<Longrightarrow>
   canSet (fs ! i) \<and>
   (\<forall>T. embeddedType (fname (fs ! i)) = Some T \<longrightarrow>
        hasType T (fval (fs ! i)) \<and> walkable (fval (fs ! i))) \<and>
   (embeddedType (fname (fs ! i)) = None \<longrightarrow> assertsOK (fval (fs ! i)))"
proof (induct fs arbitrary: i)
  case Nil
  then show ?case by simp
next
  case (Cons f fs)
  then show ?case by (cases f; cases i) auto
qed

lemma visited_resolved:
  "visited p v = Some f \<Longrightarrow> embeddedType (fname f) = None \<Longrightarrow>
   visited p (resolved env v) =
     Some (Field (fname f) (envTag f) (defTag f) (canSet f) (leafValue env f))"
proof (induct p v rule: visited.induct)
  case (2 i p T fs)
  then show ?case
    by (auto simp: length_resolvedFields nth_resolvedFields split: if_splits)
qed simp_all

lemma visited_walkable:
  "visited p v = Some f \<Longrightarrow> walkable v \<Longrightarrow>
   canSet f \<and> (\<forall>T. embeddedType (fname f) = Some T \<longrightarrow> hasType T (fval f)) \<and>
   (embeddedType (fname f) = None \<longrightarrow> assertsOK (fval f))"
proof (induct p v rule: visited.induct)
  case (2 i p T fs)
  then show ?case
    by (auto dest: nth_walkableFields split: if_splits)
qed simp_all

section \<open>Decoding the same document again\<close>

lemma overlay_scalar:
  "sameType w w \<Longrightarrow>
   overlayValue a q w = (case a q of Some j \<Rightarrow> if sameType w j then j else w | None \<Rightarrow> w)"
  by (cases w) (simp_all split: option.splits)

lemma leaf_overlay:
  assumes fixp: "overlayValue a q v = v"
  shows "leafValue env (Field n e d c
            (overlayValue a q (leafValue env (Field n e d c v)))) =
         leafValue env (Field n e d c v)"
proof (cases "sameType v v")
  case False
  with fixp show ?thesis by (simp add: leafValue_not_scalar)
next
  case True
  let ?v' = "leafValue env (Field n e d c v)"
  have ty: "sameType ?v' j = sameType v j" for j by (rule sameType_leafValue)
  from True have sc: "sameType ?v' ?v'"
    by (metis sameType_leafValue sameType_refl)
  show ?thesis
  proof (cases "a q")
    case None
    with sc show ?thesis by (simp add: overlay_scalar leafValue_idem)
  next
    case (Some j)
    show ?thesis
    proof (cases "sameType v j")
      case False
      with Some sc ty show ?thesis by (simp add: overlay_scalar leafValue_idem)
    next
      case st: True
      with fixp True Some have "j = v" by (simp add: overlay_scalar)
      with Some sc ty st show ?thesis by (simp add: overlay_scalar)
    qed
  qed
qed

lemma resolved_overlay_resolved:
  "overlayValue a p y = y \<Longrightarrow>
   resolved env (overlayValue a p (resolved env y)) = resolved env y"
  "overlayFields a p ys = ys \<Longrightarrow>
   resolvedFields env (overlayFields a p (resolvedFields env ys)) = resolvedFields env ys"
proof (induct a p y and a p ys rule: overlayValue_overlayFields.induct)
  case (5 a p n e d c v fs)
  from 5 have v: "overlayValue a (p @ [n]) v = v" and fs: "overlayFields a p fs = fs"
    by simp_all
  show ?case
  proof (cases "embeddedType n")
    case None
    with 5 v fs show ?thesis by (simp add: leaf_overlay)
  next
    case (Some T)
    with 5 v fs show ?thesis by simp
  qed
qed simp_all

lemma overlay_idem:
  "overlayValue a p (overlayValue a p v) = overlayValue a p v"
  "overlayFields a p (overlayFields a p fs) = overlayFields a p fs"
  by (induct a p v and a p fs rule: overlayValue_overlayFields.induct)
     (auto dest: sameType_refl simp: overlay_scalar split: option.splits)

lemma resolved_idem:
  "resolved env (resolved env v) = resolved env v"
  "resolvedFields env (resolvedFields env fs) = resolvedFields env fs"
  by (induct env v and env fs rule: resolved_resolvedFields.induct)
     (auto simp: leafValue_idem split: option.splits)

section \<open>Parse in terms of the walk\<close>

lemma Parse_ok:
  assumes "Parse env files dec filepath st = (l, Inr st')"
  shows "walkable (decoded files dec filepath st) \<and>
         st' = resolved env (decoded files dec filepath st)"
proof -
  let ?d = "decoded files dec filepath st"
  from assms have s: "snd (setFromEnvOrDefault env ?d) = Inr st'"
    using Parse_snd [of env files dec filepath st] by simp
  have w: "walkable ?d"
  proof (rule ccontr)
    assume "\<not> walkable ?d"
    then obtain l p where "setFromEnvOrDefault env ?d = (l, Inl p)"
      using walk_panics(1) by blast
    with s show False by simp
  qed
  then obtain l2 where "setFromEnvOrDefault env ?d = (l2, Inr (resolved env ?d))"
    using walk_ok(1) by blast
  with s w show ?thesis by simp
qed

lemma Parse_walkable:
  assumes "walkable (decoded files dec filepath st)"
  shows "\<exists>l. Parse env files dec filepath st = (l, Inr (resolved env (decoded files dec filepath st)))"
proof -
  let ?d = "decoded files dec filepath st"
  from assms obtain l2 where "setFromEnvOrDefault env ?d = (l2, Inr (resolved env ?d))"
    using walk_ok(1) by blast
  then have "snd (Parse env files dec filepath st) = Inr (resolved env ?d)"
    by (simp add: Parse_snd)
  then show ?thesis
    by (cases "Parse env files dec filepath st") simp
qed

lemma Parse_not_walkable:
  assumes "\<not> walkable (decoded files dec filepath st)"
  shows "\<exists>l p. Parse env files dec filepath st = (l, Inl p)"
proof -
  let ?d = "decoded files dec filepath st"
  from assms obtain l2 p where "setFromEnvOrDefault env ?d = (l2, Inl p)"
    using walk_panics(1) by blast
  then have "snd (Parse env files dec filepath st) = Inl p"
    by (simp add: Parse_snd)
  then show ?thesis
    by (cases "Parse env files dec filepath st") simp
qed

lemma decoded_not_null:
  "\<forall>data. files filepath = Some data \<longrightarrow> dec data \<noteq> JNull \<Longrightarrow>
   decoded files dec filepath st = st \<or>
   (\<exists>a. decoded files dec filepath st = overlayValue a [] st)"
  by (auto simp: decoded_def Unmarshal_def ReadFile_def split: jsonDoc.splits option.splits)

lemma decoded_fixpoint:
  "decoded files dec filepath (resolved env (decoded files dec filepath st)) = 
   resolved env (decoded files dec filepath st) \<or> 
   decoded files dec filepath st = VOther \<or>
   (\<exists>a. decoded files dec filepath st = overlayValue a [] st \<and> 
     decoded files dec filepath (resolved env (decoded files dec filepath st)) 
      = overlayValue a [] (resolved env (overlayValue a [] st)))"
  by (auto simp: decoded_def Unmarshal_def split: jsonDoc.splits)


lemma decoded_missing_file: "files filepath = None \<Longrightarrow> decoded files dec filepath st = st"
  by (simp add: decoded_def ReadFile_def Unmarshal_def)

section \<open>The first field that cannot be set\<close>

lemma fieldLoop_first_unsettable:
  "walkableFields pre \<Longrightarrow> \<not> canSet f \<Longrightarrow>
   \<exists>l. fieldLoop env tn (pre @ f # post) = (l, Inl (CannotSet tn (fname f)))"
proof (induct pre)
  case Nil
  then show ?case by (cases f) simp
next
  case (Cons g pre)
  then obtain l where l: "fieldLoop env tn (pre @ f # post) = (l, Inl (CannotSet tn (fname f)))"
    by (cases g) auto
  obtain n e d c v where g: "g = Field n e d c v" by (cases g)
  show ?case
  proof (cases "embeddedType n")
    case None
    with Cons.prems g have "assertsOK (fval (Field n e d c v))" by simp
    then obtain l' where "leafField env (Field n e d c v) = (l', Inr (leafValue env (Field n e d c v)))"
      using leafField_returns by blast
    with Cons.prems g l None show ?thesis by simp
  next
    case (Some T)
    with Cons.prems g have "walkable v" by simp
    then obtain l' where "setFromEnvOrDefault env v = (l', Inr (resolved env v))"
      using walk_ok(1) by blast
    with Cons.prems g l Some show ?thesis by simp
  qed
qed

lemma overlayFields_split:
  "overlayFields a p (pre @ f # post) =
     overlayFields a p pre
       @ Field (fname f) (envTag f) (defTag f) (canSet f) (overlayValue a (p @ [fname f]) (fval f))
       # overlayFields a p post"
proof (induct pre)
  case Nil
  then show ?case by (cases f) simp
next
  case (Cons g pre)
  then show ?case by (cases g) simp
qed

lemma walk_first_unsettable:
  assumes "walkableFields pre" "\<not> canSet f"
    and "d = VStruct T (pre @ f # post) \<or> (\<exists>a. d = overlayValue a [] (VStruct T (pre @ f # post)))"
  shows "\<exists>l. setFromEnvOrDefault env d = (l, Inl (CannotSet (tyName T) (fname f)))"
proof -
  from assms(3) obtain pre' f' post' where d: "d = VStruct T (pre' @ f' # post')"
    and pre': "walkableFields pre'" and f': "\<not> canSet f'" "fname f' = fname f"
    using assms(1,2) by (auto simp: overlayFields_split walkable_overlay)
  obtain l where "fieldLoop env (tyName T) (pre' @ f' # post') = (l, Inl (CannotSet (tyName T) (fname f')))"
    using fieldLoop_first_unsettable [OF pre' f'(1)] by blast
  with d f' show ?thesis by simp
qed

section \<open>Evaluating the model on concrete inputs\<close>

lemmas leaf_eval =
  leafField_def setFromEnv_def setAsDefault_def Getenv_def embeddedType_def
  ParseInt_def ParseUint_def ParseBool_def isDigit_def digitVal_def maxUint64_def
  SetInt_def SetUint_def wrapSigned_def wrapUnsigned_def

lemmas parse_eval = Parse_def ReadFile_def Unmarshal_def decoded_def leaf_eval

section \<open>Facts about the leaf rule, the test and the coercer\<close>

lemma leafField_env_meaningful:
  assumes "envTag f \<noteq> []" "envTag f \<noteq> ''-''" "Getenv env (envTag f) \<noteq> []"
    and "setValue (fval f) (Getenv env (envTag f)) = (v1, l1)" and "isSet v1 = Inr True"
  shows "leafField env f = (l1, Inr v1)"
  using assms by (simp add: leafField_def setFromEnv_def)

lemma isSet_listed_kinds:
  "k \<in> {KInt, KInt8, KInt32, KInt64} \<Longrightarrow> isSet (VInt t k n) = Inr (n > 0)"
  "u \<in> {KUint, KUint8, KUint32, KUint64} \<Longrightarrow> isSet (VUint t u m) = Inr (m > 0)"
  "isSet (VString Predeclared s) = Inr (s \<noteq> [])"
  "isSet (VBool Predeclared b) = Inr b"
  by auto

lemma isSet_named_type_panics:
  "isSet (VString (Named pkg n) s) = Inl (InterfaceConversion (pkg @ ''.'' @ n) ''string'')"
  "isSet (VBool (Named pkg n) b) = Inl (InterfaceConversion (pkg @ ''.'' @ n) ''bool'')"
  by simp_all

lemma setValue_parse_error:
  "k \<in> {KInt, KInt8, KInt32, KInt64} \<Longrightarrow> snd (ParseInt s) \<noteq> None \<Longrightarrow>
     setValue (VInt t k n) s =
       (VInt t k n, [InvalidValue (typeName (intTypeName k) t) (typeString (intTypeName k) t) s])"
  "u \<in> {KUint, KUint8, KUint32, KUint64} \<Longrightarrow> snd (ParseUint s) \<noteq> None \<Longrightarrow>
     setValue (VUint t u m) s =
       (VUint t u m, [InvalidValue (typeName (uintTypeName u) t) (typeString (uintTypeName u) t) s])"
  "snd (ParseBool s) \<noteq> None \<Longrightarrow>
     setValue (VBool t b) s = (VBool t b, [InvalidValue (typeName ''bool'' t) (typeString ''bool'' t) s])"
  by (auto split: prod.splits option.splits)

lemma setValue_parse_ok:
  "k \<in> {KInt, KInt8, KInt32, KInt64} \<Longrightarrow> ParseInt s = (x, None) \<Longrightarrow>
     setValue (VInt t k n) s = (SetInt t k x, [])"
  "u \<in> {KUint, KUint8, KUint32, KUint64} \<Longrightarrow> ParseUint s = (y, None) \<Longrightarrow>
     setValue (VUint t u m) s = (SetUint t u y, [])"
  "ParseBool s = (c, None) \<Longrightarrow> setValue (VBool t b) s = (VBool t c, [])"
  by auto

lemma leafValue_no_env_no_default:
  assumes "envTag f = [] \<or> envTag f = ''-'' \<or> Getenv env (envTag f) = []"
    and "defTag f = [] \<or> defTag f = ''-''"
  shows "leafValue env f = fval f"
proof (cases "assertsOK (fval f)")
  case True
  with assms show ?thesis by (auto simp: leafValue_returns Let_def)
next
  case False
  then show ?thesis by (simp add: leafValue_panics)
qed

lemma not_specMeaningful_cases:
  "\<not> specMeaningful v \<Longrightarrow> v = zeroValue v \<or> (\<exists>t k n. v = VInt t k n \<and> n < 0)"
  by (cases v) auto

text \<open>
  What holds of the abort on a field that cannot be set: it happens for every input; it
  carries the names of the structure and the field when the fields before can be walked
  and the document is not the literal \<^verbatim>\<open>null\<close>; and with such documents a destination
  that can be walked never makes \<^verbatim>\<open>Parse\<close> panic.
\<close>

lemma Parse_unsettable_field_panics:
  assumes "visited p st = Some f" and "\<not> canSet f"
  shows "\<exists>l e. Parse env files dec filepath st = (l, Inl e)"
proof -
  from assms have "\<not> walkable st" using visited_walkable by blast
  then have "\<not> walkable (decoded files dec filepath st)" using walkable_decoded by blast
  then show ?thesis by (rule Parse_not_walkable)
qed

lemma Parse_first_unsettable_names_field:
  assumes "walkableFields pre" and "\<not> canSet g"
    and "\<forall>data. files filepath = Some data \<longrightarrow> dec data \<noteq> JNull"
  shows "\<exists>l. Parse env files dec filepath (VStruct T (pre @ g # post)) =
             (l, Inl (CannotSet (tyName T) (fname g)))"
proof -
  let ?st = "VStruct T (pre @ g # post)"
  let ?d = "decoded files dec filepath ?st"
  from assms(3) have "?d = ?st \<or> (\<exists>a. ?d = overlayValue a [] ?st)"
    using decoded_not_null by blast
  with assms obtain l where "setFromEnvOrDefault env ?d = (l, Inl (CannotSet (tyName T) (fname g)))"
    using walk_first_unsettable by blast
  then have "snd (Parse env files dec filepath ?st) = Inl (CannotSet (tyName T) (fname g))"
    by (simp add: Parse_snd)
  then show ?thesis
    by (cases "Parse env files dec filepath ?st") simp
qed

lemma Parse_walkable_returns:
  assumes "walkable st" and "\<forall>data. files filepath = Some data \<longrightarrow> dec data \<noteq> JNull"
  shows "\<exists>l st'. Parse env files dec filepath st = (l, Inr st')"
proof -
  let ?d = "decoded files dec filepath st"
  from assms(2) have "?d = st \<or> (\<exists>a. ?d = overlayValue a [] st)"
    using decoded_not_null by blast
  with assms(1) have "walkable ?d" by (auto simp: walkable_overlay)
  then show ?thesis using Parse_walkable by blast
qed

section \<open>The claims\<close>

text \<open>
  C1.  Claim: for a leaf with a non-omitted environment name whose variable is present and
  non-empty, the resolved value is the parsed environment value, whatever the file and
  the default say, and resolution of the field stops there.
  The code does not stop after the environment assignment: it applies \<^verbatim>\<open>isSet\<close> to what
  it just assigned, and a value parsed from the environment that is zero (or negative,
  or false) falls through to the default.  With \<^verbatim>\<open>HTTP_PORT=0\<close> the field \<^verbatim>\<open>HTTPPort\<close> of
  \<^verbatim>\<open>SharedBeego\<close> ends as its default 8080, although the coercion of \<^verbatim>\<open>"0"\<close> succeeded;
  and it does so too when the file sets the field to 9000.
\<close>

theorem C1_env_zero_loses_to_default:
  "setValue (VInt Predeclared KInt 0) ''0'' = (VInt Predeclared KInt 0, []) \<and>
   Parse [''HTTP_PORT'' \<mapsto> ''0''] Map.empty (\<lambda>d. JInvalid []) ''conf.json'' SharedBeegoZero =
     ([ReadError ''conf.json'', JsonError ''unexpected end of JSON input''],
      Inr (VStruct SharedBeego
        [Field ''HTTPPort'' ''HTTP_PORT'' ''8080'' True (VInt Predeclared KInt 8080),
         Field ''AppName'' ''APP_NAME'' ''my_game'' True (VString Predeclared ''my_game''),
         Field ''RunMode'' ''RUN_MODE'' ''dev'' True (VString Predeclared ''dev'')])) \<and>
   Parse [''HTTP_PORT'' \<mapsto> ''0''] [''conf.json'' \<mapsto> ''x'']
       (\<lambda>d. JDoc None (Map.empty([''HTTPPort''] \<mapsto> VInt Predeclared KInt 9000))) ''conf.json'' SharedBeegoZero =
     ([],
      Inr (VStruct SharedBeego
        [Field ''HTTPPort'' ''HTTP_PORT'' ''8080'' True (VInt Predeclared KInt 8080),
         Field ''AppName'' ''APP_NAME'' ''my_game'' True (VString Predeclared ''my_game''),
         Field ''RunMode'' ''RUN_MODE'' ''dev'' True (VString Predeclared ''dev'')]))"
  by (simp add: parse_eval SharedBeegoZero_def)

text \<open>
  C2.  Claim: every signed and unsigned integer leaf, of every width, is meaningful iff
  its value is greater than zero, so a zero integer with a default takes the default.
  The case lists of \<^verbatim>\<open>isSet\<close> have no \<^verbatim>\<open>Int16\<close> and no \<^verbatim>\<open>Uint16\<close>: a 16-bit field holding
  zero is judged meaningful and keeps its zero, where a 32-bit field takes the default.
\<close>

theorem C2_int16_zero_judged_meaningful:
  "isSet (VInt Predeclared KInt16 0) = Inr True \<and> isSet (VUint Predeclared KUint16 0) = Inr True \<and>
   leafField Map.empty (Field ''Port'' [] ''5'' True (VInt Predeclared KInt16 0)) =
     ([], Inr (VInt Predeclared KInt16 0)) \<and>
   leafField Map.empty (Field ''Port'' [] ''5'' True (VInt Predeclared KInt32 0)) =
     ([], Inr (VInt Predeclared KInt32 5))"
  by (simp add: leaf_eval)

text \<open>
  C3.  Claim: for an integer leaf of any width, 16-bit included, the coercer parses the
  string in base 10 and assigns it, or reports a diagnostic and leaves the field.
  The case lists of \<^verbatim>\<open>setValue\<close> have no \<^verbatim>\<open>Int16\<close> and no \<^verbatim>\<open>Uint16\<close>: for a 16-bit field
  nothing is parsed, assigned or printed, where a 32-bit field is assigned or reported.
\<close>

theorem C3_int16_never_coerced:
  "setValue (VInt Predeclared KInt16 0) ''5'' = (VInt Predeclared KInt16 0, []) \<and>
   setValue (VUint Predeclared KUint16 0) ''5'' = (VUint Predeclared KUint16 0, []) \<and>
   setValue (VInt Predeclared KInt32 0) ''5'' = (VInt Predeclared KInt32 5, []) \<and>
   setValue (VInt Predeclared KInt32 0) ''5x'' =
     (VInt Predeclared KInt32 0, [InvalidValue ''int32'' ''int32'' ''5x''])"
  by (simp add: leaf_eval)

text \<open>
  C4.  A boolean leaf with default literal \<^verbatim>\<open>"true"\<close> that JSON decoding left false, with
  no environment override, is true after \<^verbatim>\<open>Parse\<close>.  The leaf may sit at any position the
  walker visits, in the destination or in a shared structure inside it; on a decoded
  destination the walker can walk, \<^verbatim>\<open>Parse\<close> returns, and the leaf is true in its result.
  (Where the walker cannot walk the decoded destination, \<^verbatim>\<open>Parse\<close> panics and resolves
  nothing: that is so when a field is not settable, when a shared structure has the
  wrong type, and when a string or boolean leaf has a named type, this leaf included.)
\<close>

theorem C4_false_bool_takes_default:
  assumes "walkable (decoded files dec filepath st)"
    and "visited p (decoded files dec filepath st) = Some (Field n e ''true'' c (VBool t False))"
    and "e = [] \<or> e = ''-'' \<or> Getenv env e = []"
  shows "\<exists>l st'. Parse env files dec filepath st = (l, Inr st') \<and>
           visited p st' = Some (Field n e ''true'' c (VBool t True))"
proof -
  let ?d = "decoded files dec filepath st"
  let ?f = "Field n e ''true'' c (VBool t False)"
  from assms(1) obtain l where p: "Parse env files dec filepath st = (l, Inr (resolved env ?d))"
    using Parse_walkable by blast
  from visited_walkable [OF assms(2,1)] have leaf: "embeddedType (fname ?f) = None"
    by (cases "embeddedType n") auto
  with visited_walkable [OF assms(2,1)] have ok: "assertsOK (fval ?f)" by simp
  then have t: "t = Predeclared" by simp
  have "leafValue env ?f = VBool t True"
    using assms(3) ok t
    by (auto simp: leafValue_returns Let_def ParseBool_def)
  with visited_resolved [OF assms(2) leaf, of env]
  have "visited p (resolved env ?d) = Some (Field n e ''true'' c (VBool t True))" by simp
  with p show ?thesis by blast
qed

theorem C4_witness:
  "walkable (decoded [''conf.json'' \<mapsto> ''x''] (\<lambda>d. JDoc None (Map.empty([''Debug''] \<mapsto> VBool Predeclared False)))
     ''conf.json'' (VStruct (UserStruct ''Conf'') [Field ''Debug'' ''DEBUG'' ''true'' True (VBool Predeclared False)])) \<and>
   visited [0] (decoded [''conf.json'' \<mapsto> ''x''] (\<lambda>d. JDoc None (Map.empty([''Debug''] \<mapsto> VBool Predeclared False)))
     ''conf.json'' (VStruct (UserStruct ''Conf'') [Field ''Debug'' ''DEBUG'' ''true'' True (VBool Predeclared False)])) =
     Some (Field ''Debug'' ''DEBUG'' ''true'' True (VBool Predeclared False)) \<and>
   Getenv Map.empty ''DEBUG'' = [] \<and>
   (\<exists>l st'.
      Parse Map.empty [''conf.json'' \<mapsto> ''x''] (\<lambda>d. JDoc None (Map.empty([''Debug''] \<mapsto> VBool Predeclared False)))
        ''conf.json'' (VStruct (UserStruct ''Conf'') [Field ''Debug'' ''DEBUG'' ''true'' True (VBool Predeclared False)]) =
        (l, Inr st') \<and>
      visited [0] st' = Some (Field ''Debug'' ''DEBUG'' ''true'' True (VBool Predeclared True)))"
proof -
  let ?F = "[''conf.json'' \<mapsto> ''x'']"
  let ?D = "\<lambda>d::string. JDoc None (Map.empty([''Debug''] \<mapsto> VBool Predeclared False))"
  let ?st = "VStruct (UserStruct ''Conf'') [Field ''Debug'' ''DEBUG'' ''true'' True (VBool Predeclared False)]"
  have h1: "walkable (decoded ?F ?D ''conf.json'' ?st)"
    by (simp add: parse_eval)
  have h2: "visited [0] (decoded ?F ?D ''conf.json'' ?st) =
              Some (Field ''Debug'' ''DEBUG'' ''true'' True (VBool Predeclared False))"
    by (simp add: parse_eval)
  have h3: "''DEBUG'' = [] \<or> ''DEBUG'' = ''-'' \<or> Getenv Map.empty ''DEBUG'' = []"
    by (simp add: Getenv_def)
  from C4_false_bool_takes_default [OF h1 h2 h3] h1 h2 h3
  show ?thesis by simp
qed

text \<open>
  C5.  Resolution is idempotent: when \<^verbatim>\<open>Parse\<close> returns a destination, running \<^verbatim>\<open>Parse\<close>
  again on that destination, with the same file and environment, returns it unchanged.
  This holds for every starting destination, the zero-valued one included.
\<close>

theorem C5_Parse_idempotent:
  assumes "Parse env files dec filepath st = (l, Inr st')"
  shows "\<exists>l'. Parse env files dec filepath st' = (l', Inr st')"
proof -
  let ?d = "decoded files dec filepath st"
  let ?d' = "decoded files dec filepath st'"
  from assms have w: "walkable ?d" and st': "st' = resolved env ?d"
    using Parse_ok by blast+
  have w': "walkable st'" using w st' by (simp add: walkable_resolved)
  have "walkable ?d' \<and> resolved env ?d' = st'"
    using decoded_fixpoint [of files dec filepath env st]
  proof (elim disjE exE conjE)
    assume "decoded files dec filepath (resolved env ?d) = resolved env ?d"
    with st' w' show ?thesis by (simp add: resolved_idem)
  next
    assume "?d = VOther"
    with w show ?thesis by simp
  next
    fix a
    assume d: "?d = overlayValue a [] st"
      and d': "decoded files dec filepath (resolved env ?d) =
               overlayValue a [] (resolved env (overlayValue a [] st))"
    have "overlayValue a [] ?d = ?d" by (simp add: d overlay_idem)
    then have "resolved env (overlayValue a [] (resolved env ?d)) = resolved env ?d"
      by (rule resolved_overlay_resolved(1))
    with d d' st' w' show ?thesis by (simp add: walkable_overlay)
  qed
  then show ?thesis using Parse_walkable [of files dec filepath st' env] by simp
qed

theorem C5_witness:
  "Parse [''RUN_MODE'' \<mapsto> ''prod''] [''conf.json'' \<mapsto> ''x'']
     (\<lambda>d. JDoc None (Map.empty([''HTTPPort''] \<mapsto> VInt Predeclared KInt 9000))) ''conf.json'' SharedBeegoZero =
     ([], Inr (VStruct SharedBeego
        [Field ''HTTPPort'' ''HTTP_PORT'' ''8080'' True (VInt Predeclared KInt 9000),
         Field ''AppName'' ''APP_NAME'' ''my_game'' True (VString Predeclared ''my_game''),
         Field ''RunMode'' ''RUN_MODE'' ''dev'' True (VString Predeclared ''prod'')])) \<and>
   (\<exists>l'. Parse [''RUN_MODE'' \<mapsto> ''prod''] [''conf.json'' \<mapsto> ''x'']
     (\<lambda>d. JDoc None (Map.empty([''HTTPPort''] \<mapsto> VInt Predeclared KInt 9000))) ''conf.json''
     (VStruct SharedBeego
        [Field ''HTTPPort'' ''HTTP_PORT'' ''8080'' True (VInt Predeclared KInt 9000),
         Field ''AppName'' ''APP_NAME'' ''my_game'' True (VString Predeclared ''my_game''),
         Field ''RunMode'' ''RUN_MODE'' ''dev'' True (VString Predeclared ''prod'')]) =
     (l', Inr (VStruct SharedBeego
        [Field ''HTTPPort'' ''HTTP_PORT'' ''8080'' True (VInt Predeclared KInt 9000),
         Field ''AppName'' ''APP_NAME'' ''my_game'' True (VString Predeclared ''my_game''),
         Field ''RunMode'' ''RUN_MODE'' ''dev'' True (VString Predeclared ''prod'')])))"
proof -
  have h: "Parse [''RUN_MODE'' \<mapsto> ''prod''] [''conf.json'' \<mapsto> ''x'']
     (\<lambda>d. JDoc None (Map.empty([''HTTPPort''] \<mapsto> VInt Predeclared KInt 9000))) ''conf.json'' SharedBeegoZero =
     ([], Inr (VStruct SharedBeego
        [Field ''HTTPPort'' ''HTTP_PORT'' ''8080'' True (VInt Predeclared KInt 9000),
         Field ''AppName'' ''APP_NAME'' ''my_game'' True (VString Predeclared ''my_game''),
         Field ''RunMode'' ''RUN_MODE'' ''dev'' True (VString Predeclared ''prod'')]))"
    by (simp add: parse_eval SharedBeegoZero_def)
  show ?thesis using h C5_Parse_idempotent [OF h] by simp
qed

text \<open>
  C6.  Claim: when the source string cannot be parsed as the field's declared kind, a
  diagnostic is logged and the field keeps the value it had.
  For a 16-bit integer field no parse is attempted, so a string that is no number is
  passed over without a diagnostic; and since every width is parsed as 64 bits and
  stored by a wrapping conversion, \<^verbatim>\<open>"300"\<close> changes an 8-bit field to 44 silently.
\<close>

theorem C6_int16_failure_not_logged:
  "setValue (VInt Predeclared KInt16 7) ''abc'' = (VInt Predeclared KInt16 7, []) \<and>
   leafField [''PORT'' \<mapsto> ''abc''] (Field ''Port'' ''PORT'' ''abc'' True (VUint Predeclared KUint16 0)) =
     ([], Inr (VUint Predeclared KUint16 0)) \<and>
   setValue (VInt Predeclared KInt8 7) ''300'' = (VInt Predeclared KInt8 44, [])"
  by (simp add: leaf_eval)

text \<open>
  C7.  When the file cannot be read, \<^verbatim>\<open>Parse\<close> reports the read failure and the decode
  failure of the empty data, and then does exactly what the walker does on the untouched
  destination: every field is resolved from the environment and the defaults alone.  On
  a destination the walker can walk (fields settable, shared structures of the asserted
  type, string and boolean leaves of the predeclared types), that is a result and not a
  panic.
\<close>

theorem C7_missing_file:
  assumes "files filepath = None"
  shows "Parse env files dec filepath st =
           (ReadError filepath # JsonError ''unexpected end of JSON input''
              # fst (setFromEnvOrDefault env st),
            snd (setFromEnvOrDefault env st)) \<and>
         (walkable st \<longrightarrow> snd (Parse env files dec filepath st) = Inr (resolved env st))"
proof -
  from assms have p: "Parse env files dec filepath st =
           (ReadError filepath # JsonError ''unexpected end of JSON input''
              # fst (setFromEnvOrDefault env st),
            snd (setFromEnvOrDefault env st))"
    by (simp add: Parse_def ReadFile_def Unmarshal_def split: prod.splits)
  have "walkable st \<longrightarrow> snd (setFromEnvOrDefault env st) = Inr (resolved env st)"
    using walk_ok(1) [of st env] by auto
  with p show ?thesis by simp
qed

theorem C7_witness:
  "(Map.empty :: files) ''missing.json'' = None \<and> walkable SharedBeegoZero \<and>
   Parse [''RUN_MODE'' \<mapsto> ''prod''] Map.empty (\<lambda>d. JNull) ''missing.json'' SharedBeegoZero =
     ([ReadError ''missing.json'', JsonError ''unexpected end of JSON input''],
      Inr (VStruct SharedBeego
        [Field ''HTTPPort'' ''HTTP_PORT'' ''8080'' True (VInt Predeclared KInt 8080),
         Field ''AppName'' ''APP_NAME'' ''my_game'' True (VString Predeclared ''my_game''),
         Field ''RunMode'' ''RUN_MODE'' ''dev'' True (VString Predeclared ''prod'')]))"
proof -
  have h: "(Map.empty :: files) ''missing.json'' = None" by simp
  have w: "walkable SharedBeegoZero" by (simp add: SharedBeegoZero_def embeddedType_def)
  have r: "setFromEnvOrDefault [''RUN_MODE'' \<mapsto> ''prod''] SharedBeegoZero =
     ([], Inr (VStruct SharedBeego
        [Field ''HTTPPort'' ''HTTP_PORT'' ''8080'' True (VInt Predeclared KInt 8080),
         Field ''AppName'' ''APP_NAME'' ''my_game'' True (VString Predeclared ''my_game''),
         Field ''RunMode'' ''RUN_MODE'' ''dev'' True (VString Predeclared ''prod'')]))"
    by (simp add: leaf_eval SharedBeegoZero_def)
  show ?thesis
    using C7_missing_file [OF h, where env = "[''RUN_MODE'' \<mapsto> ''prod'']"
        and dec = "\<lambda>d. JNull" and st = SharedBeegoZero] w r
    by simp
qed

text \<open>
  C8.  Claim: a field that cannot be set aborts the walk with a message naming the
  structure and the field, whatever the external input is, and external input never
  causes an abort.
  \<^verbatim>\<open>Parse\<close> hands \<^verbatim>\<open>json.Unmarshal\<close> the address of its interface parameter, so a file
  holding the literal \<^verbatim>\<open>null\<close> stores nil there, and the walker panics in reflection.
  With that file \<^verbatim>\<open>Parse\<close> aborts on the zero \<^verbatim>\<open>SharedBeego\<close>, all of whose fields can be
  set; and on a structure with a field that cannot be set it aborts without naming the
  structure or the field, where a missing file gives the panic of line 82.
\<close>

theorem C8_null_document_aborts:
  "walkable SharedBeegoZero \<and>
   Parse Map.empty [''conf.json'' \<mapsto> ''null'']
       (\<lambda>d. if d = ''null'' then JNull else JInvalid ''invalid character'')
       ''conf.json'' SharedBeegoZero =
     ([], Inl NotAStruct) \<and>
   Parse Map.empty [''conf.json'' \<mapsto> ''null'']
       (\<lambda>d. if d = ''null'' then JNull else JInvalid ''invalid character'')
       ''conf.json''
       (VStruct (UserStruct ''Conf'') [Field ''secret'' [] [] False (VString Predeclared [])]) =
     ([], Inl NotAStruct) \<and>
   Parse Map.empty Map.empty
       (\<lambda>d. if d = ''null'' then JNull else JInvalid ''invalid character'')
       ''conf.json''
       (VStruct (UserStruct ''Conf'') [Field ''secret'' [] [] False (VString Predeclared [])]) =
     ([ReadError ''conf.json'', JsonError ''unexpected end of JSON input''],
      Inl (CannotSet ''Conf'' ''secret''))"
  by (simp add: parse_eval SharedBeegoZero_def)

text \<open>
  C9.  Claim: a leaf with no environment override, no meaningful decoded value and no
  default ends with the zero value of its kind.
  A signed integer that JSON decoding set to a negative number is not meaningful under
  \<^verbatim>\<open>isSet\<close>, and with no default it keeps that number: the field below ends as -5,
  which is not the zero value.
\<close>

theorem C9_counterexample:
  "visited [0] (decoded [''conf.json'' \<mapsto> ''x''] (\<lambda>d. JDoc None (Map.empty([''Offset''] \<mapsto> VInt Predeclared KInt (- 5))))
      ''conf.json'' (VStruct (UserStruct ''Conf'') [Field ''Offset'' [] [] True (VInt Predeclared KInt 0)])) =
     Some (Field ''Offset'' [] [] True (VInt Predeclared KInt (- 5))) \<and>
   isSet (VInt Predeclared KInt (- 5)) = Inr False \<and>
   \<not> specMeaningful (VInt Predeclared KInt (- 5)) \<and>
   Parse Map.empty [''conf.json'' \<mapsto> ''x''] (\<lambda>d. JDoc None (Map.empty([''Offset''] \<mapsto> VInt Predeclared KInt (- 5))))
      ''conf.json'' (VStruct (UserStruct ''Conf'') [Field ''Offset'' [] [] True (VInt Predeclared KInt 0)]) =
     ([], Inr (VStruct (UserStruct ''Conf'') [Field ''Offset'' [] [] True (VInt Predeclared KInt (- 5))])) \<and>
   VInt Predeclared KInt (- 5) \<noteq> zeroValue (VInt Predeclared KInt (- 5))"
  by (simp add: parse_eval)

text \<open>
  C9, amended.  A leaf with no environment override, no meaningful decoded value (by the
  test as the specification words it, for every width) and no default ends with exactly
  what JSON decoding left in it: the zero value of its kind, or the negative number that
  decoding put into a signed integer field.  \<^verbatim>\<open>Parse\<close> returns on every decoded
  destination the walker can walk.
\<close>

theorem C9_no_env_no_default_keeps_decoded:
  assumes "walkable (decoded files dec filepath st)"
    and "visited p (decoded files dec filepath st) = Some f"
    and "embeddedType (fname f) = None"
    and "envTag f = [] \<or> envTag f = ''-'' \<or> Getenv env (envTag f) = []"
    and "\<not> specMeaningful (fval f)"
    and "defTag f = [] \<or> defTag f = ''-''"
  shows "(\<exists>l st'. Parse env files dec filepath st = (l, Inr st') \<and> visited p st' = Some f) \<and>
         (fval f = zeroValue (fval f) \<or> (\<exists>t k n. fval f = VInt t k n \<and> n < 0))"
proof -
  let ?d = "decoded files dec filepath st"
  from assms(1) obtain l where p: "Parse env files dec filepath st = (l, Inr (resolved env ?d))"
    using Parse_walkable by blast
  have "leafValue env f = fval f"
    using leafValue_no_env_no_default [OF assms(4,6)] by simp
  with visited_resolved [OF assms(2,3), of env] have "visited p (resolved env ?d) = Some f"
    by simp
  with p have "\<exists>l st'. Parse env files dec filepath st = (l, Inr st') \<and> visited p st' = Some f"
    by blast
  then show ?thesis using not_specMeaningful_cases [OF assms(5)] by blast
qed

theorem C9_witness:
  "walkable (decoded Map.empty (\<lambda>d. JNull) ''conf.json''
      (VStruct (UserStruct ''Conf'') [Field ''Name'' ''NAME'' ''-'' True (VString Predeclared [])])) \<and>
   visited [0] (decoded Map.empty (\<lambda>d. JNull) ''conf.json''
      (VStruct (UserStruct ''Conf'') [Field ''Name'' ''NAME'' ''-'' True (VString Predeclared [])])) =
     Some (Field ''Name'' ''NAME'' ''-'' True (VString Predeclared [])) \<and>
   embeddedType ''Name'' = None \<and>
   Getenv Map.empty ''NAME'' = [] \<and>
   \<not> specMeaningful (VString Predeclared []) \<and>
   (\<exists>l st'. Parse Map.empty Map.empty (\<lambda>d. JNull) ''conf.json''
      (VStruct (UserStruct ''Conf'') [Field ''Name'' ''NAME'' ''-'' True (VString Predeclared [])]) =
      (l, Inr st') \<and>
      visited [0] st' = Some (Field ''Name'' ''NAME'' ''-'' True (VString Predeclared []))) \<and>
   VString Predeclared [] = zeroValue (VString Predeclared [])"
proof -
  let ?f = "Field ''Name'' ''NAME'' ''-'' True (VString Predeclared [])"
  let ?st = "VStruct (UserStruct ''Conf'') [?f]"
  let ?dec = "\<lambda>d::string. JNull"
  have h1: "walkable (decoded Map.empty ?dec ''conf.json'' ?st)"
    by (simp add: parse_eval)
  have h2: "visited [0] (decoded Map.empty ?dec ''conf.json'' ?st) = Some ?f"
    by (simp add: parse_eval)
  have h3: "embeddedType (fname ?f) = None" by (simp add: embeddedType_def)
  have h4: "envTag ?f = [] \<or> envTag ?f = ''-'' \<or> Getenv Map.empty (envTag ?f) = []"
    by (simp add: Getenv_def)
  have h5: "\<not> specMeaningful (fval ?f)" by simp
  have h6: "defTag ?f = [] \<or> defTag ?f = ''-''" by simp
  from C9_no_env_no_default_keeps_decoded [OF h1 h2 h3 h4 h5 h6] h1 h2 h3 h4 h5
  show ?thesis by (simp add: Getenv_def)
qed

text \<open>
  C10.  The walker chooses between recursion and the leaf rule by the field's name.  A
  field named \<^verbatim>\<open>SharedLeaf\<close> or \<^verbatim>\<open>SharedBeego\<close> whose value is not of that type makes the
  type assertion panic; when the value has the type, the walker runs on it and stores
  the result back.  A structure under any other name, even one of the two shared types,
  is handled as a leaf: \<^verbatim>\<open>isSet\<close> holds for it, \<^verbatim>\<open>setValue\<close> leaves it alone and prints
  nothing, and after \<^verbatim>\<open>Parse\<close> the field with all its inner fields is as JSON decoding
  left it.
\<close>

theorem C10_recursion_by_field_name:
  "((n = ''SharedLeaf'' \<and> \<not> hasType SharedLeaf v) \<or> (n = ''SharedBeego'' \<and> \<not> hasType SharedBeego v) \<longrightarrow>
      fieldLoop env tn (Field n e d True v # fs) = ([], Inl (TypeAssertion n))) \<and>
   (((n' = ''SharedLeaf'' \<and> hasType SharedLeaf w) \<or> (n' = ''SharedBeego'' \<and> hasType SharedBeego w)) \<and>
      setFromEnvOrDefault env w = (la, Inr w') \<and> fieldLoop env tn fs' = (lb, Inr fs'') \<longrightarrow>
      fieldLoop env tn (Field n' e d True w # fs') = (la @ lb, Inr (Field n' e d True w' # fs''))) \<and>
   (m \<noteq> ''SharedLeaf'' \<and> m \<noteq> ''SharedBeego'' \<and> fieldLoop env tn gs = (lc, Inr gs') \<longrightarrow>
      isSet (VStruct T hs) = Inr True \<and> setValue (VStruct T hs) s = (VStruct T hs, []) \<and>
      fieldLoop env tn (Field m e d True (VStruct T hs) # gs) =
        (lc, Inr (Field m e d True (VStruct T hs) # gs'))) \<and>
   (Parse env files dec filepath st = (l, Inr st') \<and>
      visited p (decoded files dec filepath st) = Some f \<and>
      fname f \<noteq> ''SharedLeaf'' \<and> fname f \<noteq> ''SharedBeego'' \<and> fval f = VStruct T hs \<longrightarrow>
      visited p st' = Some f)"
proof (intro conjI impI)
  assume "(n = ''SharedLeaf'' \<and> \<not> hasType SharedLeaf v) \<or> (n = ''SharedBeego'' \<and> \<not> hasType SharedBeego v)"
  then show "fieldLoop env tn (Field n e d True v # fs) = ([], Inl (TypeAssertion n))"
    by (auto simp: embeddedType_def)
next
  assume "((n' = ''SharedLeaf'' \<and> hasType SharedLeaf w) \<or> (n' = ''SharedBeego'' \<and> hasType SharedBeego w)) \<and>
      setFromEnvOrDefault env w = (la, Inr w') \<and> fieldLoop env tn fs' = (lb, Inr fs'')"
  then show "fieldLoop env tn (Field n' e d True w # fs') = (la @ lb, Inr (Field n' e d True w' # fs''))"
    by (auto simp: embeddedType_def)
next
  assume a: "m \<noteq> ''SharedLeaf'' \<and> m \<noteq> ''SharedBeego'' \<and> fieldLoop env tn gs = (lc, Inr gs')"
  show "isSet (VStruct T hs) = Inr True" by simp
  show "setValue (VStruct T hs) s = (VStruct T hs, [])" by simp
  have "leafField env (Field m e d True (VStruct T hs)) = ([], Inr (VStruct T hs))"
    by (simp add: leafField_def setFromEnv_def Let_def)
  with a show "fieldLoop env tn (Field m e d True (VStruct T hs) # gs) =
        (lc, Inr (Field m e d True (VStruct T hs) # gs'))"
    by (simp add: embeddedType_def)
next
  assume a: "Parse env files dec filepath st = (l, Inr st') \<and>
      visited p (decoded files dec filepath st) = Some f \<and>
      fname f \<noteq> ''SharedLeaf'' \<and> fname f \<noteq> ''SharedBeego'' \<and> fval f = VStruct T hs"
  then have st': "st' = resolved env (decoded files dec filepath st)"
    using Parse_ok by blast
  from a have leaf: "embeddedType (fname f) = None" by (simp add: embeddedType_def)
  from a have "leafValue env f = fval f"
    by (cases f) (simp add: leafValue_not_scalar)
  with a visited_resolved [OF _ leaf, of p "decoded files dec filepath st" env] st'
  show "visited p st' = Some f" by (cases f) auto
qed

theorem C10_witness:
  "\<not> hasType SharedLeaf SharedBeegoZero \<and>
   fieldLoop [''APP_NAME'' \<mapsto> ''svc''] ''Conf'' [Field ''SharedLeaf'' [] [] True SharedBeegoZero] =
     ([], Inl (TypeAssertion ''SharedLeaf'')) \<and>
   hasType SharedBeego SharedBeegoZero \<and>
   fieldLoop [''APP_NAME'' \<mapsto> ''svc''] ''Conf'' [Field ''SharedBeego'' [] [] True SharedBeegoZero] =
     ([], Inr [Field ''SharedBeego'' [] [] True (VStruct SharedBeego
        [Field ''HTTPPort'' ''HTTP_PORT'' ''8080'' True (VInt Predeclared KInt 8080),
         Field ''AppName'' ''APP_NAME'' ''my_game'' True (VString Predeclared ''svc''),
         Field ''RunMode'' ''RUN_MODE'' ''dev'' True (VString Predeclared ''dev'')])]) \<and>
   fieldLoop [''APP_NAME'' \<mapsto> ''svc''] ''Conf''
     [Field ''Beego'' [] [] True
        (VStruct SharedBeego [Field ''AppName'' ''APP_NAME'' ''my_game'' True (VString Predeclared [])])] =
     ([], Inr [Field ''Beego'' [] [] True
        (VStruct SharedBeego [Field ''AppName'' ''APP_NAME'' ''my_game'' True (VString Predeclared [])])]) \<and>
   Parse [''APP_NAME'' \<mapsto> ''svc''] Map.empty (\<lambda>d. JNull) ''conf.json''
     (VStruct (UserStruct ''Conf'')
        [Field ''Beego'' [] [] True
           (VStruct SharedBeego [Field ''AppName'' ''APP_NAME'' ''my_game'' True (VString Predeclared [])])]) =
     ([ReadError ''conf.json'', JsonError ''unexpected end of JSON input''],
      Inr (VStruct (UserStruct ''Conf'')
        [Field ''Beego'' [] [] True
           (VStruct SharedBeego [Field ''AppName'' ''APP_NAME'' ''my_game'' True (VString Predeclared [])])])) \<and>
   visited [0] (VStruct (UserStruct ''Conf'')
        [Field ''Beego'' [] [] True
           (VStruct SharedBeego [Field ''AppName'' ''APP_NAME'' ''my_game'' True (VString Predeclared [])])]) =
     Some (Field ''Beego'' [] [] True
           (VStruct SharedBeego [Field ''AppName'' ''APP_NAME'' ''my_game'' True (VString Predeclared [])]))"
proof -
  let ?env = "[''APP_NAME'' \<mapsto> ''svc'']"
  let ?hs = "[Field ''AppName'' ''APP_NAME'' ''my_game'' True (VString Predeclared [])]"
  let ?f = "Field ''Beego'' [] [] True (VStruct SharedBeego ?hs)"
  let ?st = "VStruct (UserStruct ''Conf'') [?f]"
  let ?w' = "VStruct SharedBeego
        [Field ''HTTPPort'' ''HTTP_PORT'' ''8080'' True (VInt Predeclared KInt 8080),
         Field ''AppName'' ''APP_NAME'' ''my_game'' True (VString Predeclared ''svc''),
         Field ''RunMode'' ''RUN_MODE'' ''dev'' True (VString Predeclared ''dev'')]"
  let ?l = "[ReadError ''conf.json'', JsonError ''unexpected end of JSON input'']"
  have a1: "\<not> hasType SharedLeaf SharedBeegoZero" by (simp add: SharedBeegoZero_def)
  have b1: "hasType SharedBeego SharedBeegoZero" by (simp add: SharedBeegoZero_def)
  have b2: "setFromEnvOrDefault ?env SharedBeegoZero = ([], Inr ?w')"
    by (simp add: leaf_eval SharedBeegoZero_def)
  have b3: "fieldLoop ?env ''Conf'' [] = ([], Inr [])" by simp
  have d1: "Parse ?env Map.empty (\<lambda>d. JNull) ''conf.json'' ?st = (?l, Inr ?st)"
    by (simp add: parse_eval)
  have d2: "visited [0] (decoded Map.empty (\<lambda>d. JNull) ''conf.json'' ?st) = Some ?f"
    by (simp add: parse_eval)
  note t = C10_recursion_by_field_name [where n = "''SharedLeaf''" and v = SharedBeegoZero
      and env = ?env and tn = "''Conf''" and e = "[]" and d = "[]" and fs = "[]"
      and n' = "''SharedBeego''" and w = SharedBeegoZero and la = "[]" and w' = ?w'
      and fs' = "[]" and lb = "[]" and fs'' = "[]"
      and m = "''Beego''" and gs = "[]" and lc = "[]" and gs' = "[]"
      and T = SharedBeego and hs = ?hs and s = "''x''"
      and files = Map.empty and dec = "\<lambda>d. JNull" and filepath = "''conf.json''"
      and st = ?st and l = ?l and st' = ?st and p = "[0]" and f = ?f]
  from t a1 b1 b2 b3 d1 d2 show ?thesis by simp
qed

end
